theory Spec2Isabelle
  imports Main "HOL-Library.Word"
begin

section \<open>Data model\<close>

text \<open>
  The rows of the three relations. \<open>user\<close> follows the column list of
  \<^verbatim>\<open>app/model/user/user.go\<close>; the four columns that \<^verbatim>\<open>AddUser\<close> inserts as
  \<^verbatim>\<open>nil\<close> are nullable. The private field \<^verbatim>\<open>ns\<close> is the pointer that
  \<^verbatim>\<open>fillNamespaceInUsers\<close> writes. The struct declarations themselves are taken
  from the data model of the specification; identifiers and timestamps are \<^verbatim>\<open>int64\<close>
  values on which the code does no arithmetic that could overflow, and are integers here.
\<close>

datatype owner_type = TypeUser | TypeOther

record namespace =
  n_OwnerID :: int
  n_OwnerType :: owner_type
  n_Path :: string

record user =
  ID :: int
  Email :: string
  EncryptedPassword :: string
  Username :: string
  Name :: string
  PublicEmail :: string
  CreatedAt :: int
  DeletedAt :: "int option"
  VerifiedAt :: "int option"
  LastLoginAt :: "int option"
  LastLoginIP :: "string option"
  RegisterIP :: string
  IsAdmin :: bool
  NamespaceID :: int
  ns :: "namespace option"

record session =
  s_OwnerID :: int
  s_Token :: string
  s_ClientIP :: string
  s_CreatedAt :: int
  s_ExpiredAt :: int

text \<open>
  The typed errors of the \<^verbatim>\<open>errors\<close> package, with the arguments the callers pass.
  A nil-pointer dereference is a panic; it is a value here, tagged with the place that
  dereferences.
\<close>

datatype err_model = User
datatype err_field = Password
datatype err_reason = NotActivated | NotEqual
datatype panic_site = RangeUserID | FillUserNs | NamespacePath

datatype error =
    SQLError
  | NotFoundError err_model
  | AccessDenied err_model err_reason
  | InvalidParameterError err_model err_field err_reason
  | Panic panic_site

text \<open>
  The relational store behind \<^verbatim>\<open>sqlx.Queryer\<close>, \<^verbatim>\<open>sqlx.Execer\<close> and
  \<^verbatim>\<open>sqlx.Ext\<close>: each relation is the list of its rows in the store's default order.
  The database is an external collaborator that may refuse any statement; \<open>rejects\<close> says
  which kinds of statement it refuses, and every \<^verbatim>\<open>err != nil\<close> branch of the source
  is taken exactly when the statement it follows is refused.
\<close>

datatype stmt = SelectUser | SelectUserBySession | UpdateUser | InsertSession | Begin | Commit

record db =
  users :: "user list"
  sessions :: "session list"
  namespaces :: "namespace list"
  rejects :: "stmt \<Rightarrow> bool"

section \<open>Time\<close>

text \<open>
  A \<^verbatim>\<open>time.Time\<close> is the number of nanoseconds since the epoch, a \<^verbatim>\<open>time.Duration\<close>
  a number of nanoseconds. Every call of \<^verbatim>\<open>time.Now()\<close> is an argument of the function
  that makes it.
\<close>

type_synonym Time = int
type_synonym Duration = int

definition Hour :: Duration where
  "Hour = 3600 * 1000000000"

definition Add :: "Time \<Rightarrow> Duration \<Rightarrow> Time" where
  "Add t d = t + d"

definition Unix :: "Time \<Rightarrow> int" where
  "Unix t = t div 1000000000"

section \<open>User store\<close>

text \<open>
  Modelled from the spec: the conditions \<^verbatim>\<open>NormalUser\<close> and \<^verbatim>\<open>InactivateUser\<close> and the
  method \<^verbatim>\<open>Verified\<close> are declared outside the source files. A normal user is a row
  that is not soft-deleted (null deleted timestamp); a verified account has a non-null
  verification timestamp, an inactive one a null verification timestamp.
\<close>

definition NormalUser :: "user \<Rightarrow> bool" where
  "NormalUser u = (DeletedAt u = None)"

definition InactivateUser :: "user \<Rightarrow> bool" where
  "InactivateUser u = (VerifiedAt u = None)"

definition Verified :: "user \<Rightarrow> bool" where
  "Verified u = (VerifiedAt u \<noteq> None)"

text \<open>
  \<^verbatim>\<open>SELECT columns FROM "user" WHERE cond AND NormalUser\<close>. A squirrel condition is a
  predicate on rows; \<^verbatim>\<open>sq.Eq\<close> on a text or integer column is equality.
\<close>

definition listUsersByCond :: "db \<Rightarrow> (user \<Rightarrow> bool) \<Rightarrow> error + user list" where
  "listUsersByCond src cond =
     (if rejects src SelectUser then Inl SQLError
      else Inr (filter (\<lambda>u. cond u \<and> NormalUser u) (users src)))"

definition getUser :: "db \<Rightarrow> (user \<Rightarrow> bool) \<Rightarrow> error + user option" where
  "getUser src cond =
     (case listUsersByCond src cond of
        Inl err \<Rightarrow> Inl err
      | Inr us \<Rightarrow> (if length us > 0 then Inr (Some (us ! 0)) else Inr None))"

definition GetUserByEmail :: "db \<Rightarrow> string \<Rightarrow> error + user option" where
  "GetUserByEmail src email = getUser src (\<lambda>u. Email u = email)"

definition GetUserByUsername :: "db \<Rightarrow> string \<Rightarrow> error + user option" where
  "GetUserByUsername src username = getUser src (\<lambda>u. Username u = username)"

definition GetUser :: "db \<Rightarrow> int \<Rightarrow> error + user option" where
  "GetUser src i = getUser src (\<lambda>u. ID u = i)"

text \<open>The Go result \<^verbatim>\<open>(bool, error)\<close> is \<open>Inr b\<close> for \<^verbatim>\<open>(b, nil)\<close>.\<close>

definition ExistsEmailOrUsername :: "db \<Rightarrow> string \<Rightarrow> string \<Rightarrow> error + bool" where
  "ExistsEmailOrUsername src username email =
     (let byEmail =
            (if length email > 0
             then (case getUser src (\<lambda>u. Email u = email) of
                     Inl err \<Rightarrow> Inl err
                   | Inr (Some u) \<Rightarrow> Inr True
                   | Inr None \<Rightarrow> Inr False)
             else Inr False)
      in if length username > 0
         then (case getUser src (\<lambda>u. Username u = username) of
                 Inl err \<Rightarrow> Inl err
               | Inr (Some u) \<Rightarrow> Inr True
               | Inr None \<Rightarrow> byEmail)
         else byEmail)"

text \<open>
  \<^verbatim>\<open>UPDATE "user" SET verified_at = now WHERE id = userID AND InactivateUser\<close>:
  the rows the condition selects are rewritten in place, the others are kept.
\<close>

definition ActivateUser :: "db \<Rightarrow> Time \<Rightarrow> int \<Rightarrow> error + db" where
  "ActivateUser tx now userID =
     (if rejects tx UpdateUser then Inl SQLError
      else Inr (tx\<lparr>users :=
                  map (\<lambda>u. if ID u = userID \<and> InactivateUser u
                            then u\<lparr>VerifiedAt := Some (Unix now)\<rparr> else u) (users tx)\<rparr>))"

text \<open>
  \<^verbatim>\<open>errors.Wrap\<close> is declared outside the source files. Every other function calls it
  on a non-nil cause only, which gives the SQL error; \<^verbatim>\<open>ListAllUsers\<close> calls it on
  whatever \<^verbatim>\<open>sqlx.Select\<close> returned, so what it makes of a nil cause is the parameter
  \<open>wrap_nil\<close>.
\<close>

definition Wrap :: "error option \<Rightarrow> error option \<Rightarrow> error \<Rightarrow> error option" where
  "Wrap wrap_nil cause descr = (case cause of None \<Rightarrow> wrap_nil | Some _ \<Rightarrow> Some descr)"

text \<open>
  \<^verbatim>\<open>page\<close> and \<^verbatim>\<open>per\<close> are \<^verbatim>\<open>uint64\<close>, and so is their product: the offset sent to
  the store is \<^verbatim>\<open>page * per\<close> as Go computes it. \<^verbatim>\<open>LIMIT\<close> and \<^verbatim>\<open>OFFSET\<close> take and
  drop a prefix of the selected rows. The function returns the rows together with the
  wrapped error; a refused query leaves the empty slice it started with.
\<close>

definition ListAllUsers ::
  "error option \<Rightarrow> db \<Rightarrow> 64 word \<Rightarrow> 64 word \<Rightarrow> user list \<times> error option" where
  "ListAllUsers wrap_nil src page per =
     (let limit = per; offset = page * per in
      if rejects src SelectUser then ([], Wrap wrap_nil (Some SQLError) SQLError)
      else (take (unat limit) (drop (unat offset) (filter NormalUser (users src))),
            Wrap wrap_nil None SQLError))"

definition update :: "db \<Rightarrow> (user \<Rightarrow> bool) \<Rightarrow> (user \<Rightarrow> user) \<Rightarrow> error + db" where
  "update tx cond setMap =
     (if rejects tx UpdateUser then Inl SQLError
      else Inr (tx\<lparr>users := map (\<lambda>u. if cond u then setMap u else u) (users tx)\<rparr>))"

definition UpdateLogin :: "db \<Rightarrow> Time \<Rightarrow> int \<Rightarrow> string \<Rightarrow> error + db" where
  "UpdateLogin tx now userID clientIP =
     update tx (\<lambda>u. ID u = userID)
       (\<lambda>u. u\<lparr>LastLoginAt := Some (Unix now), LastLoginIP := Some clientIP\<rparr>)"

text \<open>
  The join of \<^verbatim>\<open>GetUserByUserToken\<close>:
  \<^verbatim>\<open>FROM "user" JOIN session ON session.token = ? AND session.expired_at >= ?
  WHERE "user".id = session.owner_id\<close>, with the token and \<^verbatim>\<open>time.Now().Unix()\<close> as
  arguments. The rows come user by user, each with its sessions in order. The query has
  no \<^verbatim>\<open>NormalUser\<close> condition.
\<close>

definition GetUserByUserToken :: "db \<Rightarrow> Time \<Rightarrow> string \<Rightarrow> error + user option" where
  "GetUserByUserToken src now userToken =
     (if rejects src SelectUserBySession then Inl SQLError
      else (let us = concat (map (\<lambda>u. map (\<lambda>s. u)
                       (filter (\<lambda>s. (s_Token s = userToken \<and> s_ExpiredAt s \<ge> Unix now)
                                      \<and> ID u = s_OwnerID s) (sessions src))) (users src))
            in if length us > 0 then Inr (Some (us ! 0)) else Inr None))"

section \<open>Session and namespace stores, transactions\<close>

text \<open>
  Modelled from the spec: \<^verbatim>\<open>session.AddSession\<close> is declared outside the source files;
  it inserts a new session row. A refused insert leaves the store as it was.
\<close>

definition AddSession :: "db \<Rightarrow> session \<Rightarrow> error + db" where
  "AddSession tx sess =
     (if rejects tx InsertSession then Inl SQLError
      else Inr (tx\<lparr>sessions := sessions tx @ [sess]\<rparr>))"

text \<open>
  Modelled from the spec: the method \<^verbatim>\<open>Namespace\<close> of a user is declared outside the
  source files; the login flow fetches the user's namespace with it. The namespace store
  associates a namespace with its owner id and owner type, so the fetch returns the
  first namespace row owned by that user, and a nil pointer when there is none.
\<close>

definition Namespace :: "db \<Rightarrow> user \<Rightarrow> namespace option" where
  "Namespace src u =
     find (\<lambda>n. n_OwnerID n = ID u \<and> n_OwnerType n = TypeUser) (namespaces src)"

text \<open>
  Modelled from the spec: \<^verbatim>\<open>db.Transact\<close> is declared outside the source files. All
  statements of the function it is given execute inside a single transaction, and a
  failure at any step rolls back every write of the transaction. The function also
  works on the variables \<open>w\<close> it captures, which are not part of the store and are
  not rolled back.
\<close>

definition Transact ::
  "db \<Rightarrow> 'w \<Rightarrow> (db \<Rightarrow> 'w \<Rightarrow> error option \<times> db \<times> 'w) \<Rightarrow> error option \<times> db \<times> 'w" where
  "Transact DB w txFn =
     (if rejects DB Begin then (Some SQLError, DB, w)
      else (case txFn DB w of
              (Some err, tx, w') \<Rightarrow> (Some err, DB, w')
            | (None, tx, w') \<Rightarrow>
                (if rejects DB Commit then (Some SQLError, DB, w') else (None, tx, w'))))"

section \<open>Login flow\<close>

text \<open>
  The request context of the web framework, as far as \<^verbatim>\<open>Login\<close> uses it: the client
  address, the host of the request, and the calls of \<^verbatim>\<open>SetCookie\<close> made so far, each
  with the arguments it was given.
\<close>

record cookie =
  c_name :: string
  c_value :: string
  c_maxAge :: int
  c_path :: string
  c_domain :: string
  c_secure :: bool
  c_httpOnly :: bool

record gin_Context =
  ClientIP :: string
  RequestHost :: string
  cookies :: "cookie list"

definition SetCookie ::
  "gin_Context \<Rightarrow> string \<Rightarrow> string \<Rightarrow> int \<Rightarrow> string \<Rightarrow> string \<Rightarrow> bool \<Rightarrow> bool \<Rightarrow> gin_Context" where
  "SetCookie ctx name val maxAge path domain secure httpOnly =
     ctx\<lparr>cookies := cookies ctx @
       [\<lparr>c_name = name, c_value = val, c_maxAge = maxAge, c_path = path,
         c_domain = domain, c_secure = secure, c_httpOnly = httpOnly\<rparr>]\<rparr>"

record LoginUserPayload =
  p_Email :: string
  p_Password :: string

record UserLoginResult =
  r_Token :: string
  r_NamespacePath :: string
  r_Name :: string
  r_Email :: string
  r_PublicEmail :: string

text \<open>
  What a call of \<^verbatim>\<open>Login\<close> takes from outside the store and the request: the password
  comparison \<^verbatim>\<open>pwd.ComparePassword\<close>, the token \<^verbatim>\<open>uuid.UUID()\<close> returns, and the three
  readings of the clock, in the order the code makes them.
\<close>

record env =
  ComparePassword :: "string \<Rightarrow> string \<Rightarrow> bool"
  UUID :: string
  now_login :: Time
  now_created :: Time
  now_expired :: Time

definition TokenExpiredTime :: Duration where
  "TokenExpiredTime = 24 * Hour * 30"

definition tokenField :: string where
  "tokenField = ''auth-user-token''"

definition validate :: "env \<Rightarrow> db \<Rightarrow> string \<Rightarrow> string \<Rightarrow> error + user" where
  "validate e src usernameOrEmail password =
     (case (if CHR ''@'' \<in> set usernameOrEmail
            then GetUserByEmail src usernameOrEmail
            else GetUserByUsername src usernameOrEmail) of
        Inl err \<Rightarrow> Inl err
      | Inr None \<Rightarrow> Inl (NotFoundError User)
      | Inr (Some u) \<Rightarrow>
          (if \<not> Verified u then Inl (AccessDenied User NotActivated)
           else if \<not> ComparePassword e (EncryptedPassword u) password
           then Inl (InvalidParameterError User Password NotEqual)
           else Inr u))"

definition buildSession :: "env \<Rightarrow> int \<Rightarrow> string \<Rightarrow> session" where
  "buildSession e userID clientIP =
     \<lparr>s_OwnerID = userID,
      s_Token = UUID e,
      s_ClientIP = clientIP,
      s_CreatedAt = Unix (now_created e),
      s_ExpiredAt = Unix (Add (now_expired e) TokenExpiredTime)\<rparr>"

text \<open>
  The function \<^verbatim>\<open>Login\<close> hands to \<^verbatim>\<open>db.Transact\<close>. It captures the request context
  and the result variable. Reading the path of a nil namespace is a panic.
\<close>

definition login_tx ::
  "env \<Rightarrow> user \<Rightarrow> string \<Rightarrow> db \<Rightarrow> gin_Context \<times> UserLoginResult option \<Rightarrow>
   error option \<times> db \<times> gin_Context \<times> UserLoginResult option" where
  "login_tx e u clientIP tx w =
     (case UpdateLogin tx (now_login e) (ID u) clientIP of
        Inl err \<Rightarrow> (Some err, tx, w)
      | Inr tx1 \<Rightarrow>
          (let sess = buildSession e (ID u) clientIP in
           case AddSession tx1 sess of
             Inl err \<Rightarrow> (Some err, tx1, w)
           | Inr tx2 \<Rightarrow>
               (case Namespace tx2 u of
                  None \<Rightarrow> (Some (Panic NamespacePath), tx2, w)
                | Some n \<Rightarrow>
                    (let result = \<lparr>r_Token = s_Token sess,
                                   r_NamespacePath = n_Path n,
                                   r_Name = Name u,
                                   r_Email = Email u,
                                   r_PublicEmail = PublicEmail u\<rparr>;
                         ctx = SetCookie (fst w) tokenField (s_Token sess) 0 ''/''
                                 (RequestHost (fst w)) False False
                     in (None, tx2, ctx, Some result)))))"

definition Login ::
  "env \<Rightarrow> db \<Rightarrow> gin_Context \<Rightarrow> LoginUserPayload \<Rightarrow>
   (error + UserLoginResult option) \<times> db \<times> gin_Context" where
  "Login e DB ctx req =
     (let clientIP = ClientIP ctx in
      case validate e DB (p_Email req) (p_Password req) of
        Inl err \<Rightarrow> (Inl err, DB, ctx)
      | Inr u \<Rightarrow>
          (case Transact DB (ctx, None) (login_tx e u clientIP) of
             (Some err, DB', ctx', result) \<Rightarrow> (Inl err, DB', ctx')
           | (None, DB', ctx', result) \<Rightarrow> (Inr result, DB', ctx')))"

section \<open>Namespace enrichment\<close>

text \<open>
  \<^verbatim>\<open>fillNamespaceInUsers\<close> works on pointers and writes through them, so the users
  live in a heap: a \<^verbatim>\<open>*User\<close> is \<open>None\<close> for nil or the address of a user, and every
  address holds a user (Go has no dangling pointers). The first loop reads the id through
  each pointer and records the pointer under that id; the second loop looks the owner of
  each namespace up in the map, where a missing key gives the nil pointer, and writes the
  namespace through the pointer it found. \<^verbatim>\<open>namespace.ListNamespacesByOwner\<close> is declared
  outside the source files: its behaviour for the owner type of users is the parameter
  \<open>listNs\<close>.
\<close>

type_synonym addr = nat
type_synonym heap = "addr \<Rightarrow> user"

fun collectUsers ::
  "heap \<Rightarrow> addr option list \<Rightarrow> int list \<Rightarrow> (int \<rightharpoonup> addr) \<Rightarrow> error + int list \<times> (int \<rightharpoonup> addr)" where
  "collectUsers h [] userIDs userMap = Inr (userIDs, userMap)"
| "collectUsers h (None # ps) userIDs userMap = Inl (Panic RangeUserID)"
| "collectUsers h (Some a # ps) userIDs userMap =
     collectUsers h ps (userIDs @ [ID (h a)]) (userMap(ID (h a) \<mapsto> a))"

fun fillNs :: "(int \<rightharpoonup> addr) \<Rightarrow> namespace list \<Rightarrow> heap \<Rightarrow> error + heap" where
  "fillNs userMap [] h = Inr h"
| "fillNs userMap (n # nss) h =
     (case userMap (n_OwnerID n) of
        None \<Rightarrow> Inl (Panic FillUserNs)
      | Some a \<Rightarrow> fillNs userMap nss (h(a := (h a)\<lparr>ns := Some n\<rparr>)))"

definition fillNamespaceInUsers ::
  "(int list \<Rightarrow> namespace list option) \<Rightarrow> heap \<Rightarrow> addr option list \<Rightarrow> error + heap" where
  "fillNamespaceInUsers listNs h us =
     (case collectUsers h us [] Map.empty of
        Inl err \<Rightarrow> Inl err
      | Inr (userIDs, userMap) \<Rightarrow>
          (case listNs userIDs of
             None \<Rightarrow> Inl SQLError
           | Some nss \<Rightarrow> fillNs userMap nss h))"

section \<open>Conditions and stores used in the statements\<close>

text \<open>
  The condition \<^verbatim>\<open>validate\<close> looks the user up with: the e-mail column when the
  identifier contains an @, the username column otherwise.
\<close>

definition byLogin :: "string \<Rightarrow> user \<Rightarrow> bool" where
  "byLogin usernameOrEmail u =
     (if CHR ''@'' \<in> set usernameOrEmail then Email u = usernameOrEmail
      else Username u = usernameOrEmail)"

text \<open>
  A small store: a verified user, a user who is not verified, and a verified user who
  is soft-deleted; both verified users hold a session that expires at second 2000.
\<close>

definition alice :: user where
  "alice = \<lparr>ID = 1, Email = ''alice@example.org'', EncryptedPassword = ''hash-a'',
     Username = ''alice'', Name = ''Alice'', PublicEmail = ''alice@example.org'',
     CreatedAt = 1000, DeletedAt = None, VerifiedAt = Some 1100, LastLoginAt = None,
     LastLoginIP = None, RegisterIP = ''10.0.0.1'', IsAdmin = False, NamespaceID = 1,
     ns = None\<rparr>"

definition bob :: user where
  "bob = \<lparr>ID = 2, Email = ''bob@example.org'', EncryptedPassword = ''hash-b'',
     Username = ''bob'', Name = ''Bob'', PublicEmail = ''-'',
     CreatedAt = 1200, DeletedAt = None, VerifiedAt = None, LastLoginAt = None,
     LastLoginIP = None, RegisterIP = ''10.0.0.2'', IsAdmin = False, NamespaceID = 2,
     ns = None\<rparr>"

definition carol :: user where
  "carol = \<lparr>ID = 3, Email = ''carol@example.org'', EncryptedPassword = ''hash-c'',
     Username = ''carol'', Name = ''Carol'', PublicEmail = ''-'',
     CreatedAt = 1300, DeletedAt = Some 1500, VerifiedAt = Some 1400, LastLoginAt = None,
     LastLoginIP = None, RegisterIP = ''10.0.0.3'', IsAdmin = True, NamespaceID = 3,
     ns = None\<rparr>"

definition alice_session :: session where
  "alice_session = \<lparr>s_OwnerID = 1, s_Token = ''tok-a'', s_ClientIP = ''10.0.0.1'',
     s_CreatedAt = 1600, s_ExpiredAt = 2000\<rparr>"

definition carol_session :: session where
  "carol_session = \<lparr>s_OwnerID = 3, s_Token = ''tok-c'', s_ClientIP = ''10.0.0.3'',
     s_CreatedAt = 1450, s_ExpiredAt = 2000\<rparr>"

definition alice_ns :: namespace where
  "alice_ns = \<lparr>n_OwnerID = 1, n_OwnerType = TypeUser, n_Path = ''alice''\<rparr>"

definition example_db :: db where
  "example_db = \<lparr>users = [alice, bob, carol], sessions = [alice_session, carol_session],
     namespaces = [alice_ns], rejects = (\<lambda>q. False)\<rparr>"

text \<open>
  A login attempt against that store: the comparison accepts the password
  \<open>''secret''\<close> for every hash, the clock stands in second 1700.
\<close>

definition example_env :: env where
  "example_env = \<lparr>ComparePassword = (\<lambda>h p. p = ''secret''), UUID = ''tok-new'',
     now_login = 1700000000000, now_created = 1700000000001, now_expired = 1700000000002\<rparr>"

definition example_ctx :: gin_Context where
  "example_ctx = \<lparr>ClientIP = ''10.0.0.9'', RequestHost = ''example.org'', cookies = []\<rparr>"

definition alice_login :: LoginUserPayload where
  "alice_login = \<lparr>p_Email = ''alice@example.org'', p_Password = ''secret''\<rparr>"

definition bob_login :: LoginUserPayload where
  "bob_login = \<lparr>p_Email = ''bob'', p_Password = ''secret''\<rparr>"

text \<open>
  A heap with the three users at the addresses 0, 1 and 2 (and above), and a namespace
  query that returns, of the namespaces of the example store, those owned by one of the
  ids it is given.
\<close>

definition example_heap :: heap where
  "example_heap = (\<lambda>a. if a = 0 then alice else if a = 1 then bob else carol)"

definition example_listNs :: "int list \<Rightarrow> namespace list option" where
  "example_listNs ids = Some (filter (\<lambda>n. n_OwnerID n \<in> set ids) [alice_ns])"

section \<open>Properties of the lookups\<close>

lemma first_of_filter:
  "(if length (filter P xs) > 0 then Some (filter P xs ! 0) else None) = find P xs"
  by (induction xs) auto

lemma getUser_find:
  "\<not> rejects src SelectUser \<Longrightarrow>
   getUser src cond = Inr (find (\<lambda>u. cond u \<and> NormalUser u) (users src))"
  using first_of_filter [of "\<lambda>u. cond u \<and> NormalUser u" "users src"]
  by (simp add: getUser_def listUsersByCond_def split: if_splits)

lemma getUser_rejected:
  "rejects src SelectUser \<Longrightarrow> getUser src cond = Inl SQLError"
  by (simp add: getUser_def listUsersByCond_def)

lemmas example_rows =
  alice_def bob_def carol_def alice_session_def carol_session_def alice_ns_def

text \<open>
  The three lookups by column signal absence by a nil user and a nil error, and a
  refused query by the SQL error; none of them returns the not-found error.
\<close>

lemma getUser_absent:
  assumes "\<not> rejects src SelectUser"
    and "\<forall>u\<in>set (users src). NormalUser u \<longrightarrow> \<not> cond u"
  shows "getUser src cond = Inr None"
proof -
  from assms(2) have "find (\<lambda>u. cond u \<and> NormalUser u) (users src) = None"
    by (auto simp: find_None_iff)
  with assms(1) show ?thesis by (simp add: getUser_find)
qed

lemma getUser_never_not_found: "getUser src cond \<noteq> Inl (NotFoundError m)"
  by (cases "rejects src SelectUser") (simp_all add: getUser_find getUser_rejected)

subsection \<open>Existence check\<close>

text \<open>
  C5. When the store answers the query, \<^verbatim>\<open>ExistsEmailOrUsername\<close> returns true exactly
  when some normal (not soft-deleted) row has the given non-empty username or the given
  non-empty e-mail address; rows that are soft-deleted do not count.
\<close>

theorem ExistsEmailOrUsername_iff:
  assumes "\<not> rejects src SelectUser"
  shows "ExistsEmailOrUsername src username email =
           Inr ((username \<noteq> [] \<and> (\<exists>u\<in>set (users src). NormalUser u \<and> Username u = username))
              \<or> (email \<noteq> [] \<and> (\<exists>u\<in>set (users src). NormalUser u \<and> Email u = email)))"
proof -
  have byName: "getUser src (\<lambda>u. Username u = username)
      = Inr (find (\<lambda>u. Username u = username \<and> NormalUser u) (users src))"
    using assms by (rule getUser_find)
  have byMail: "getUser src (\<lambda>u. Email u = email)
      = Inr (find (\<lambda>u. Email u = email \<and> NormalUser u) (users src))"
    using assms by (rule getUser_find)
  have n: "(find (\<lambda>u. Username u = username \<and> NormalUser u) (users src) \<noteq> None)
      = (\<exists>u\<in>set (users src). NormalUser u \<and> Username u = username)"
    by (auto simp: find_None_iff)
  have m: "(find (\<lambda>u. Email u = email \<and> NormalUser u) (users src) \<noteq> None)
      = (\<exists>u\<in>set (users src). NormalUser u \<and> Email u = email)"
    by (auto simp: find_None_iff)
  show ?thesis
    unfolding ExistsEmailOrUsername_def byName byMail Let_def
    using n m by (auto split: option.splits)
qed

text \<open>
  In the example store the username \<open>carol\<close> belongs to a soft-deleted row only, and
  the e-mail address of \<open>bob\<close> to a normal row.
\<close>

theorem ExistsEmailOrUsername_iff_witness:
  "\<not> rejects example_db SelectUser
   \<and> ExistsEmailOrUsername example_db ''carol'' ''bob@example.org'' = Inr True
   \<and> ExistsEmailOrUsername example_db ''carol'' [] = Inr False"
proof -
  have h: "\<not> rejects example_db SelectUser" by (simp add: example_db_def)
  show ?thesis
    using h ExistsEmailOrUsername_iff [OF h, of "''carol''" "''bob@example.org''"]
      ExistsEmailOrUsername_iff [OF h, of "''carol''" "[]"]
    by (simp add: example_db_def NormalUser_def example_rows)
qed

subsection \<open>Lookup by session token\<close>

lemma join_rows_set:
  "set (concat (map (\<lambda>u. map (\<lambda>s. u) (filter (Q u) ss)) xs))
     = {u \<in> set xs. \<exists>s\<in>set ss. Q u s}"
  by (induction xs) auto

lemma first_row_member: "length xs > 0 \<Longrightarrow> xs ! 0 \<in> set xs"
  by (cases xs) auto

text \<open>
  The rows of the join: the lookup returns the first of the user rows that own a session
  with the token whose expired timestamp is not before the current second.
\<close>

lemma GetUserByUserToken_join:
  assumes "\<not> rejects src SelectUserBySession"
  shows "\<exists>r. GetUserByUserToken src now userToken = Inr r
           \<and> ((r \<noteq> None) = (\<exists>u\<in>set (users src). \<exists>s\<in>set (sessions src).
                  s_Token s = userToken \<and> Unix now \<le> s_ExpiredAt s \<and> ID u = s_OwnerID s))
           \<and> (\<forall>u. r = Some u \<longrightarrow> u \<in> set (users src) \<and> (\<exists>s\<in>set (sessions src).
                  s_Token s = userToken \<and> Unix now \<le> s_ExpiredAt s \<and> ID u = s_OwnerID s))"
proof -
  define Q where "Q = (\<lambda>(u::user) (s::session).
    (s_Token s = userToken \<and> s_ExpiredAt s \<ge> Unix now) \<and> ID u = s_OwnerID s)"
  define rows where
    "rows = concat (map (\<lambda>u. map (\<lambda>s. u) (filter (Q u) (sessions src))) (users src))"
  have rs: "set rows = {u \<in> set (users src). \<exists>s\<in>set (sessions src). Q u s}"
    unfolding rows_def by (rule join_rows_set)
  have res: "GetUserByUserToken src now userToken
      = Inr (if length rows > 0 then Some (rows ! 0) else None)"
    using assms by (simp add: GetUserByUserToken_def rows_def Q_def Let_def)
  show ?thesis
  proof (cases "length rows > 0")
    case True
    then have "rows ! 0 \<in> set rows" by (rule first_row_member)
    with rs have "rows ! 0 \<in> set (users src) \<and> (\<exists>s\<in>set (sessions src). Q (rows ! 0) s)"
      by simp
    with True res show ?thesis by (auto simp: Q_def)
  next
    case False
    then have "set rows = {}" by simp
    with rs have "\<not> (\<exists>u\<in>set (users src). \<exists>s\<in>set (sessions src). Q u s)" by auto
    with False res show ?thesis by (auto simp: Q_def)
  qed
qed

text \<open>
  C1, as the code has it. Take a token whose sessions are each owned by a user row, and
  by normal (not soft-deleted) rows only. When the store answers the query,
  \<^verbatim>\<open>GetUserByUserToken\<close> returns a user row exactly when a session with that token
  exists whose expired timestamp is greater than or equal to the current time in
  seconds, and the row returned is the normal row of the owner of such a session. The
  comparison is not strict: in the second the session expires the token is still
  accepted. Nothing is said here of a token whose session is owned by a soft-deleted
  user.
\<close>

theorem GetUserByUserToken_valid_iff:
  assumes answered: "\<not> rejects src SelectUserBySession"
    and owned: "\<forall>s\<in>set (sessions src). s_Token s = userToken \<longrightarrow>
                  (\<exists>u\<in>set (users src). ID u = s_OwnerID s)
                \<and> (\<forall>u\<in>set (users src). ID u = s_OwnerID s \<longrightarrow> NormalUser u)"
  shows "\<exists>r. GetUserByUserToken src now userToken = Inr r
           \<and> ((r \<noteq> None) = (\<exists>s\<in>set (sessions src).
                  s_Token s = userToken \<and> Unix now \<le> s_ExpiredAt s))
           \<and> (\<forall>u. r = Some u \<longrightarrow> u \<in> set (users src) \<and> NormalUser u
                  \<and> (\<exists>s\<in>set (sessions src).
                        s_Token s = userToken \<and> Unix now \<le> s_ExpiredAt s
                        \<and> s_OwnerID s = ID u))"
proof -
  from GetUserByUserToken_join [OF answered, of now userToken]
  obtain r where res: "GetUserByUserToken src now userToken = Inr r"
    and some: "(r \<noteq> None) = (\<exists>u\<in>set (users src). \<exists>s\<in>set (sessions src).
                  s_Token s = userToken \<and> Unix now \<le> s_ExpiredAt s \<and> ID u = s_OwnerID s)"
    and row: "\<forall>u. r = Some u \<longrightarrow> u \<in> set (users src) \<and> (\<exists>s\<in>set (sessions src).
                  s_Token s = userToken \<and> Unix now \<le> s_ExpiredAt s \<and> ID u = s_OwnerID s)"
    by blast
  have a: "(r \<noteq> None) = (\<exists>s\<in>set (sessions src).
                  s_Token s = userToken \<and> Unix now \<le> s_ExpiredAt s)"
  proof
    assume "r \<noteq> None"
    with some show "\<exists>s\<in>set (sessions src). s_Token s = userToken \<and> Unix now \<le> s_ExpiredAt s"
      by blast
  next
    assume "\<exists>s\<in>set (sessions src). s_Token s = userToken \<and> Unix now \<le> s_ExpiredAt s"
    then obtain s where s: "s \<in> set (sessions src)" "s_Token s = userToken"
        "Unix now \<le> s_ExpiredAt s"
      by blast
    with owned obtain u where "u \<in> set (users src)" "ID u = s_OwnerID s" by blast
    with s some show "r \<noteq> None" by blast
  qed
  have b: "\<forall>u. r = Some u \<longrightarrow> u \<in> set (users src) \<and> NormalUser u
                  \<and> (\<exists>s\<in>set (sessions src).
                        s_Token s = userToken \<and> Unix now \<le> s_ExpiredAt s
                        \<and> s_OwnerID s = ID u)"
  proof (intro allI impI)
    fix u assume "r = Some u"
    with row obtain s where u: "u \<in> set (users src)" and s: "s \<in> set (sessions src)"
        "s_Token s = userToken" "Unix now \<le> s_ExpiredAt s" "ID u = s_OwnerID s"
      by blast
    with owned have "NormalUser u" by blast
    with u s show "u \<in> set (users src) \<and> NormalUser u
                  \<and> (\<exists>s\<in>set (sessions src).
                        s_Token s = userToken \<and> Unix now \<le> s_ExpiredAt s
                        \<and> s_OwnerID s = ID u)"
      by auto
  qed
  from res a b show ?thesis by blast
qed

text \<open>
  The one session with the token of \<open>alice\<close> is owned by her normal row, and in
  second 2000, the very second it expires, the token gives her row.
\<close>

theorem GetUserByUserToken_valid_iff_witness:
  "\<not> rejects example_db SelectUserBySession
   \<and> Unix 2000000000000 = s_ExpiredAt alice_session
   \<and> NormalUser alice
   \<and> GetUserByUserToken example_db 2000000000000 ''tok-a'' = Inr (Some alice)"
proof -
  have h: "\<not> rejects example_db SelectUserBySession" by (simp add: example_db_def)
  have o: "\<forall>s\<in>set (sessions example_db). s_Token s = ''tok-a'' \<longrightarrow>
                  (\<exists>u\<in>set (users example_db). ID u = s_OwnerID s)
                \<and> (\<forall>u\<in>set (users example_db). ID u = s_OwnerID s \<longrightarrow> NormalUser u)"
    by (simp add: example_db_def NormalUser_def example_rows)
  show ?thesis
    using h GetUserByUserToken_valid_iff [OF h o, of 2000000000000]
    by (simp add: GetUserByUserToken_def example_db_def Unix_def NormalUser_def example_rows)
qed

text \<open>
  C1, as it is stated, fails: in second 2000, which is the expired timestamp of the
  session of \<open>alice\<close> and so not strictly before it, the lookup still returns her row.
\<close>

theorem GetUserByUserToken_at_expiry:
  "\<not> Unix 2000000000000 < s_ExpiredAt alice_session
   \<and> GetUserByUserToken example_db 2000000000000 (s_Token alice_session) = Inr (Some alice)"
  by (simp add: GetUserByUserToken_def example_db_def Unix_def example_rows)

text \<open>
  C9. A token whose session is owned by a soft-deleted user has no matching normal
  user, and the lookup by id returns nil for that user; the lookup by token has no
  condition on the deleted timestamp and returns the soft-deleted row.
\<close>

theorem GetUserByUserToken_deleted_owner:
  "\<not> NormalUser carol
   \<and> GetUser example_db 3 = Inr None
   \<and> GetUserByUserToken example_db 1999000000000 ''tok-c'' = Inr (Some carol)"
  by (simp add: GetUserByUserToken_def GetUser_def getUser_def listUsersByCond_def
      example_db_def Unix_def NormalUser_def example_rows)

subsection \<open>Pagination\<close>

lemma ListAllUsers_rows:
  assumes "\<not> rejects src SelectUser"
  shows "fst (ListAllUsers w src page per)
           = take (unat per)
               (drop ((unat page * unat per) mod 2 ^ 64) (filter NormalUser (users src)))"
  using assms by (simp add: ListAllUsers_def unat_word_ariths)

text \<open>
  C7, as the code has it. When the store answers the query, \<^verbatim>\<open>ListAllUsers\<close> returns
  normal users only and at most \<open>per\<close> of them, after skipping the product of
  \<open>page\<close> and \<open>per\<close> reduced modulo \<open>2 ^ 64\<close>; that is the product itself whenever it
  fits in 64 bits, and with page 1 and 10 rows per page the result is the 11th to the
  20th normal user in the store's order.
\<close>

theorem ListAllUsers_page:
  assumes "\<not> rejects src SelectUser"
  shows "fst (ListAllUsers w src page per)
           = take (unat per)
               (drop ((unat page * unat per) mod 2 ^ 64) (filter NormalUser (users src)))
       \<and> (unat page * unat per < 2 ^ 64 \<longrightarrow>
            fst (ListAllUsers w src page per)
              = take (unat per) (drop (unat page * unat per) (filter NormalUser (users src))))
       \<and> set (fst (ListAllUsers w src page per)) \<subseteq> {u \<in> set (users src). NormalUser u}
       \<and> length (fst (ListAllUsers w src page per)) \<le> unat per
       \<and> fst (ListAllUsers w src 1 10) = take 10 (drop 10 (filter NormalUser (users src)))"
proof -
  have r: "fst (ListAllUsers w src page per)
           = take (unat per)
               (drop ((unat page * unat per) mod 2 ^ 64) (filter NormalUser (users src)))"
    using assms by (rule ListAllUsers_rows)
  have a: "unat page * unat per < 2 ^ 64 \<longrightarrow>
            fst (ListAllUsers w src page per)
              = take (unat per) (drop (unat page * unat per) (filter NormalUser (users src)))"
    using r by simp
  have b: "set (fst (ListAllUsers w src page per)) \<subseteq> {u \<in> set (users src). NormalUser u}"
  proof
    fix x assume "x \<in> set (fst (ListAllUsers w src page per))"
    then have "x \<in> set (drop ((unat page * unat per) mod 2 ^ 64)
                          (filter NormalUser (users src)))"
      unfolding r by (rule in_set_takeD)
    then have "x \<in> set (filter NormalUser (users src))" by (rule in_set_dropD)
    then show "x \<in> {u \<in> set (users src). NormalUser u}" by simp
  qed
  have c: "length (fst (ListAllUsers w src page per)) \<le> unat per"
    unfolding r by simp
  have d: "fst (ListAllUsers w src 1 10) = take 10 (drop 10 (filter NormalUser (users src)))"
    using ListAllUsers_rows [OF assms, of w 1 10] by simp
  from r a b c d show ?thesis by blast
qed

text \<open>Page 1 with one row per page is the second normal user of the example store.\<close>

theorem ListAllUsers_page_witness:
  "\<not> rejects example_db SelectUser
   \<and> fst (ListAllUsers None example_db 1 1) = [bob]"
proof -
  have h: "\<not> rejects example_db SelectUser" by (simp add: example_db_def)
  show ?thesis
    using h ListAllUsers_page [OF h, of None 1 1]
    by (simp add: example_db_def NormalUser_def example_rows)
qed

text \<open>
  C7, as it is stated, fails: with \<open>page = per = 2 ^ 32\<close> the product is \<open>2 ^ 64\<close>,
  the offset the code sends is 0, and the two normal users of the example store are
  returned, where skipping the first \<open>2 ^ 64\<close> normal users leaves none.
\<close>

theorem ListAllUsers_offset_wraps:
  "fst (ListAllUsers None example_db 4294967296 4294967296) = [alice, bob]
   \<and> take (unat (4294967296 :: 64 word))
        (drop (unat (4294967296 :: 64 word) * unat (4294967296 :: 64 word))
           (filter NormalUser (users example_db))) = []"
  by (simp add: ListAllUsers_def example_db_def NormalUser_def example_rows)

subsection \<open>Activation\<close>

text \<open>
  C8. When the store accepts the update, \<^verbatim>\<open>ActivateUser\<close> sets the verified timestamp
  of the rows with the given id that have none, and leaves every other row as it is, in
  particular every row that is already verified; a second activation of the same id, at
  whatever later time, changes nothing.
\<close>

theorem ActivateUser_idempotent:
  assumes "\<not> rejects tx UpdateUser"
  shows "\<exists>tx1. ActivateUser tx t1 userID = Inr tx1
           \<and> ActivateUser tx1 t2 userID = Inr tx1
           \<and> users tx1 = map (\<lambda>u. if ID u = userID \<and> VerifiedAt u = None
                                    then u\<lparr>VerifiedAt := Some (Unix t1)\<rparr> else u) (users tx)
           \<and> (\<forall>u\<in>set (users tx). VerifiedAt u \<noteq> None \<longrightarrow> u \<in> set (users tx1))"
proof -
  define f where "f = (\<lambda>t (u::user). if ID u = userID \<and> InactivateUser u
                            then u\<lparr>VerifiedAt := Some (Unix t)\<rparr> else u)"
  define tx1 where "tx1 = tx\<lparr>users := map (f t1) (users tx)\<rparr>"
  have 1: "ActivateUser tx t1 userID = Inr tx1"
    using assms by (simp add: ActivateUser_def tx1_def f_def)
  have ff: "f t2 (f t1 u) = f t1 u" for u
    by (simp add: f_def InactivateUser_def)
  have "map (f t2) (map (f t1) (users tx)) = map (f t1) (users tx)"
    by (simp add: ff)
  then have 2: "ActivateUser tx1 t2 userID = Inr tx1"
    using assms by (simp add: ActivateUser_def tx1_def f_def)
  have 3: "users tx1 = map (\<lambda>u. if ID u = userID \<and> VerifiedAt u = None
                                    then u\<lparr>VerifiedAt := Some (Unix t1)\<rparr> else u) (users tx)"
    by (simp add: tx1_def f_def InactivateUser_def)
  have 4: "\<forall>u\<in>set (users tx). VerifiedAt u \<noteq> None \<longrightarrow> u \<in> set (users tx1)"
  proof
    fix u assume u: "u \<in> set (users tx)"
    show "VerifiedAt u \<noteq> None \<longrightarrow> u \<in> set (users tx1)"
    proof
      assume "VerifiedAt u \<noteq> None"
      then have "f t1 u = u" by (simp add: f_def InactivateUser_def)
      with u have "u \<in> f t1 ` set (users tx)" by force
      then show "u \<in> set (users tx1)" by (simp add: tx1_def)
    qed
  qed
  from 1 2 3 4 show ?thesis by blast
qed

text \<open>
  Activating \<open>bob\<close> in second 1800 and again in second 1900 leaves him verified since
  second 1800, and the other two rows as they were.
\<close>

theorem ActivateUser_idempotent_witness:
  "\<not> rejects example_db UpdateUser
   \<and> (\<exists>tx1. ActivateUser example_db 1800000000000 2 = Inr tx1
          \<and> ActivateUser tx1 1900000000000 2 = Inr tx1
          \<and> map VerifiedAt (users tx1) = [Some 1100, Some 1800, Some 1400])"
proof -
  have h: "\<not> rejects example_db UpdateUser" by (simp add: example_db_def)
  from ActivateUser_idempotent [OF h, of 1800000000000 2 1900000000000]
  obtain tx1 where 1: "ActivateUser example_db 1800000000000 2 = Inr tx1"
    and 2: "ActivateUser tx1 1900000000000 2 = Inr tx1"
    and 3: "users tx1 = map (\<lambda>u. if ID u = 2 \<and> VerifiedAt u = None
               then u\<lparr>VerifiedAt := Some (Unix 1800000000000)\<rparr> else u) (users example_db)"
    by blast
  from 3 have 4: "map VerifiedAt (users tx1) = [Some 1100, Some 1800, Some 1400]"
    by (simp add: example_db_def Unix_def example_rows)
  show ?thesis
  proof (intro conjI exI)
    show "\<not> rejects example_db UpdateUser" by (rule h)
    show "ActivateUser example_db 1800000000000 2 = Inr tx1" by (rule 1)
    show "ActivateUser tx1 1900000000000 2 = Inr tx1" by (rule 2)
    show "map VerifiedAt (users tx1) = [Some 1100, Some 1800, Some 1400]" by (rule 4)
  qed
qed

section \<open>Properties of the login flow\<close>

lemma validate_find:
  assumes "\<not> rejects src SelectUser"
  shows "validate e src ue pw =
     (case find (\<lambda>u. byLogin ue u \<and> NormalUser u) (users src) of
        None \<Rightarrow> Inl (NotFoundError User)
      | Some u \<Rightarrow>
          (if VerifiedAt u = None then Inl (AccessDenied User NotActivated)
           else if \<not> ComparePassword e (EncryptedPassword u) pw
           then Inl (InvalidParameterError User Password NotEqual)
           else Inr u))"
proof (cases "CHR ''@'' \<in> set ue")
  case True
  then have k: "byLogin ue = (\<lambda>u. Email u = ue)" by (simp add: byLogin_def fun_eq_iff)
  show ?thesis
    using True
    by (simp add: validate_def GetUserByEmail_def getUser_find [OF assms] k Verified_def
        split: option.splits)
next
  case False
  then have k: "byLogin ue = (\<lambda>u. Username u = ue)" by (simp add: byLogin_def fun_eq_iff)
  show ?thesis
    using False
    by (simp add: validate_def GetUserByUsername_def getUser_find [OF assms] k Verified_def
        split: option.splits)
qed

lemma validate_rejected:
  "rejects src SelectUser \<Longrightarrow> validate e src ue pw = Inl SQLError"
  by (simp add: validate_def GetUserByEmail_def GetUserByUsername_def getUser_rejected)

lemma Login_invalid:
  "validate e DB (p_Email req) (p_Password req) = Inl err \<Longrightarrow>
   Login e DB ctx req = (Inl err, DB, ctx)"
  by (simp add: Login_def)

text \<open>
  Every way through \<^verbatim>\<open>Login\<close> once the credentials are valid. A refused commit comes
  after the cookie has been set on the response.
\<close>

lemma Login_valid:
  assumes "validate e DB (p_Email req) (p_Password req) = Inr u"
  shows "Login e DB ctx req =
     (if rejects DB Begin \<or> rejects DB UpdateUser \<or> rejects DB InsertSession
      then (Inl SQLError, DB, ctx)
      else (case Namespace DB u of
              None \<Rightarrow> (Inl (Panic NamespacePath), DB, ctx)
            | Some n \<Rightarrow>
                (if rejects DB Commit
                 then (Inl SQLError, DB,
                       SetCookie ctx tokenField (UUID e) 0 ''/'' (RequestHost ctx) False False)
                 else (Inr (Some \<lparr>r_Token = UUID e, r_NamespacePath = n_Path n,
                                   r_Name = Name u, r_Email = Email u,
                                   r_PublicEmail = PublicEmail u\<rparr>),
                       DB\<lparr>users := map (\<lambda>x. if ID x = ID u
                                then x\<lparr>LastLoginAt := Some (Unix (now_login e)),
                                        LastLoginIP := Some (ClientIP ctx)\<rparr> else x) (users DB),
                           sessions := sessions DB @ [buildSession e (ID u) (ClientIP ctx)]\<rparr>,
                       SetCookie ctx tokenField (UUID e) 0 ''/'' (RequestHost ctx) False False))))"
  using assms
  by (simp add: Login_def Transact_def login_tx_def UpdateLogin_def update_def AddSession_def
      Namespace_def buildSession_def Let_def split: option.splits)

lemma Unix_TokenExpiredTime: "Unix (Add t TokenExpiredTime) = Unix t + 30 * 86400"
proof -
  have "t + 24 * (3600 * 1000000000) * 30 = t + 2592000 * (1000000000::int)" by simp
  then have "(t + 24 * (3600 * 1000000000) * 30) div 1000000000 = t div 1000000000 + 2592000"
    by simp
  then show ?thesis by (simp add: Unix_def Add_def TokenExpiredTime_def Hour_def)
qed

lemma alice_validates:
  "validate example_env (example_db\<lparr>rejects := f\<rparr>) ''alice@example.org'' ''secret'' =
     (if f SelectUser then Inl SQLError else Inr alice)"
  by (simp add: validate_def GetUserByEmail_def getUser_def listUsersByCond_def example_db_def
      example_env_def NormalUser_def Verified_def example_rows)

lemma alice_logs_in:
  "Login example_env example_db example_ctx alice_login =
    (Inr (Some \<lparr>r_Token = ''tok-new'', r_NamespacePath = ''alice'', r_Name = ''Alice'',
                r_Email = ''alice@example.org'', r_PublicEmail = ''alice@example.org''\<rparr>),
     example_db\<lparr>users := [alice\<lparr>LastLoginAt := Some 1700, LastLoginIP := Some ''10.0.0.9''\<rparr>,
                           bob, carol],
                sessions := [alice_session, carol_session,
                  \<lparr>s_OwnerID = 1, s_Token = ''tok-new'', s_ClientIP = ''10.0.0.9'',
                    s_CreatedAt = 1700, s_ExpiredAt = 1700 + 2592000\<rparr>]\<rparr>,
     example_ctx\<lparr>cookies := [\<lparr>c_name = ''auth-user-token'', c_value = ''tok-new'',
        c_maxAge = 0, c_path = ''/'', c_domain = ''example.org'', c_secure = False,
        c_httpOnly = False\<rparr>]\<rparr>)"
proof -
  have v: "validate example_env example_db (p_Email alice_login) (p_Password alice_login)
      = Inr alice"
    using alice_validates [of "rejects example_db"] by (simp add: alice_login_def example_db_def)
  show ?thesis
    unfolding Login_valid [OF v]
    by (simp add: example_db_def Namespace_def example_rows example_env_def example_ctx_def
        SetCookie_def tokenField_def buildSession_def Unix_def Add_def TokenExpiredTime_def
        Hour_def)
qed

subsection \<open>Precedence of the failures\<close>

text \<open>
  C3. When the store answers the lookup, the failures of a login attempt are decided in
  this order: with no normal row matching the identifier (by e-mail address when it
  contains an @, by username otherwise) \<^verbatim>\<open>Login\<close> fails with the not-found error; else,
  when the verified timestamp of the user found is null, with access denied, whatever
  the password; else, when the password comparison fails, with the invalid-parameter
  error. Store and response are unchanged in all three cases.
\<close>

theorem Login_failure_precedence:
  assumes "\<not> rejects DB SelectUser"
  shows "((\<forall>u\<in>set (users DB). NormalUser u \<longrightarrow> \<not> byLogin (p_Email req) u) \<longrightarrow>
            Login e DB ctx req = (Inl (NotFoundError User), DB, ctx))
       \<and> (\<forall>u. find (\<lambda>u. byLogin (p_Email req) u \<and> NormalUser u) (users DB) = Some u \<longrightarrow>
            (VerifiedAt u = None \<longrightarrow>
               Login e DB ctx req = (Inl (AccessDenied User NotActivated), DB, ctx))
          \<and> (VerifiedAt u \<noteq> None
               \<and> \<not> ComparePassword e (EncryptedPassword u) (p_Password req) \<longrightarrow>
               Login e DB ctx req
                 = (Inl (InvalidParameterError User Password NotEqual), DB, ctx)))"
proof (intro conjI impI allI)
  assume "\<forall>u\<in>set (users DB). NormalUser u \<longrightarrow> \<not> byLogin (p_Email req) u"
  then have "find (\<lambda>u. byLogin (p_Email req) u \<and> NormalUser u) (users DB) = None"
    by (auto simp: find_None_iff)
  then have "validate e DB (p_Email req) (p_Password req) = Inl (NotFoundError User)"
    by (simp add: validate_find [OF assms])
  then show "Login e DB ctx req = (Inl (NotFoundError User), DB, ctx)"
    by (rule Login_invalid)
next
  fix u
  assume "find (\<lambda>u. byLogin (p_Email req) u \<and> NormalUser u) (users DB) = Some u"
    and "VerifiedAt u = None"
  then have "validate e DB (p_Email req) (p_Password req)
      = Inl (AccessDenied User NotActivated)"
    by (simp add: validate_find [OF assms])
  then show "Login e DB ctx req = (Inl (AccessDenied User NotActivated), DB, ctx)"
    by (rule Login_invalid)
next
  fix u
  assume "find (\<lambda>u. byLogin (p_Email req) u \<and> NormalUser u) (users DB) = Some u"
    and "VerifiedAt u \<noteq> None \<and> \<not> ComparePassword e (EncryptedPassword u) (p_Password req)"
  then have "validate e DB (p_Email req) (p_Password req)
      = Inl (InvalidParameterError User Password NotEqual)"
    by (simp add: validate_find [OF assms])
  then show "Login e DB ctx req
      = (Inl (InvalidParameterError User Password NotEqual), DB, ctx)"
    by (rule Login_invalid)
qed

text \<open>
  In the example store \<open>bob\<close> is not verified and is denied although his password is
  accepted; the username \<open>carol\<close> belongs to a soft-deleted row only and is not found;
  \<open>alice\<close> with a wrong password gets the invalid-parameter error.
\<close>

theorem Login_failure_precedence_witness:
  "\<not> rejects example_db SelectUser
   \<and> ComparePassword example_env (EncryptedPassword bob) (p_Password bob_login)
   \<and> Login example_env example_db example_ctx bob_login
       = (Inl (AccessDenied User NotActivated), example_db, example_ctx)
   \<and> Login example_env example_db example_ctx \<lparr>p_Email = ''carol'', p_Password = ''secret''\<rparr>
       = (Inl (NotFoundError User), example_db, example_ctx)
   \<and> Login example_env example_db example_ctx \<lparr>p_Email = ''alice'', p_Password = ''guess''\<rparr>
       = (Inl (InvalidParameterError User Password NotEqual), example_db, example_ctx)"
proof -
  have h: "\<not> rejects example_db SelectUser" by (simp add: example_db_def)
  have fb: "find (\<lambda>u. byLogin (p_Email bob_login) u \<and> NormalUser u) (users example_db)
      = Some bob"
    by (simp add: byLogin_def bob_login_def example_db_def NormalUser_def example_rows)
  have fa: "find (\<lambda>u. byLogin ''alice'' u \<and> NormalUser u) (users example_db) = Some alice"
    by (simp add: byLogin_def example_db_def NormalUser_def example_rows)
  have fc: "\<forall>u\<in>set (users example_db). NormalUser u \<longrightarrow> \<not> byLogin ''carol'' u"
    by (simp add: byLogin_def example_db_def NormalUser_def example_rows)
  have 1: "ComparePassword example_env (EncryptedPassword bob) (p_Password bob_login)"
    by (simp add: example_env_def bob_login_def)
  have 2: "Login example_env example_db example_ctx bob_login
       = (Inl (AccessDenied User NotActivated), example_db, example_ctx)"
    using Login_failure_precedence [OF h, of bob_login example_env example_ctx] fb
    by (simp add: bob_def)
  have 3: "Login example_env example_db example_ctx
             \<lparr>p_Email = ''carol'', p_Password = ''secret''\<rparr>
       = (Inl (NotFoundError User), example_db, example_ctx)"
    using Login_failure_precedence [OF h, of "\<lparr>p_Email = ''carol'', p_Password = ''secret''\<rparr>"
        example_env example_ctx] fc
    by simp
  have 4: "Login example_env example_db example_ctx
             \<lparr>p_Email = ''alice'', p_Password = ''guess''\<rparr>
       = (Inl (InvalidParameterError User Password NotEqual), example_db, example_ctx)"
    using Login_failure_precedence [OF h, of "\<lparr>p_Email = ''alice'', p_Password = ''guess''\<rparr>"
        example_env example_ctx] fa
    by (simp add: alice_def example_env_def)
  from h 1 2 3 4 show ?thesis by simp
qed

subsection \<open>Atomicity\<close>

text \<open>
  C2. Once the credentials are valid, a call of \<^verbatim>\<open>Login\<close> that fails, at whatever step,
  leaves the store exactly as it was, and a call that succeeds has applied both writes:
  the last-login timestamp and address of the user are updated and the new session row
  is appended.
\<close>

theorem Login_atomic:
  assumes "validate e DB (p_Email req) (p_Password req) = Inr u"
  shows "(\<forall>err DB' ctx'. Login e DB ctx req = (Inl err, DB', ctx') \<longrightarrow> DB' = DB)
       \<and> (\<forall>r DB' ctx'. Login e DB ctx req = (Inr r, DB', ctx') \<longrightarrow>
            users DB' = map (\<lambda>x. if ID x = ID u
                                  then x\<lparr>LastLoginAt := Some (Unix (now_login e)),
                                          LastLoginIP := Some (ClientIP ctx)\<rparr> else x) (users DB)
          \<and> sessions DB' = sessions DB @ [buildSession e (ID u) (ClientIP ctx)])"
  unfolding Login_valid [OF assms]
  by (auto split: if_splits option.splits)

text \<open>
  When the store refuses the insert of the session, after it has accepted the update of
  the last login, the login of \<open>alice\<close> fails and the store is as before.
\<close>

theorem Login_atomic_witness:
  "validate example_env (example_db\<lparr>rejects := (\<lambda>q. q = InsertSession)\<rparr>)
      (p_Email alice_login) (p_Password alice_login) = Inr alice
   \<and> Login example_env (example_db\<lparr>rejects := (\<lambda>q. q = InsertSession)\<rparr>) example_ctx
       alice_login
       = (Inl SQLError, example_db\<lparr>rejects := (\<lambda>q. q = InsertSession)\<rparr>, example_ctx)"
proof -
  have v: "validate example_env (example_db\<lparr>rejects := (\<lambda>q. q = InsertSession)\<rparr>)
      (p_Email alice_login) (p_Password alice_login) = Inr alice"
    by (simp add: alice_login_def alice_validates)
  obtain r DB' ctx' where
    p: "Login example_env (example_db\<lparr>rejects := (\<lambda>q. q = InsertSession)\<rparr>)
             example_ctx alice_login = (r, DB', ctx')"
    by (rule prod_cases3)
  from p have r: "r = Inl SQLError" and c: "ctx' = example_ctx"
    unfolding Login_valid [OF v] by simp_all
  with p Login_atomic [OF v, of example_ctx]
  have "DB' = example_db\<lparr>rejects := (\<lambda>q. q = InsertSession)\<rparr>" by blast
  with v p r c show ?thesis by simp
qed

subsection \<open>Successful login\<close>

text \<open>
  C4, as the code has it. When the identifier finds a normal user who is verified and
  whose stored hash the password matches, the store accepts the statements of the login
  and the user has a namespace, \<^verbatim>\<open>Login\<close> succeeds, and the token of its result is the
  token of the one session row the call has inserted, whose owner id is the id of that
  user. Nothing is said here of a user who has no namespace.
\<close>

theorem Login_success:
  assumes found: "find (\<lambda>u. byLogin (p_Email req) u \<and> NormalUser u) (users DB) = Some u"
    and verified: "VerifiedAt u \<noteq> None"
    and password: "ComparePassword e (EncryptedPassword u) (p_Password req)"
    and accepted: "\<not> rejects DB SelectUser \<and> \<not> rejects DB Begin \<and> \<not> rejects DB UpdateUser
                   \<and> \<not> rejects DB InsertSession \<and> \<not> rejects DB Commit"
    and owns: "\<exists>n\<in>set (namespaces DB). n_OwnerID n = ID u \<and> n_OwnerType n = TypeUser"
  shows "\<exists>r DB' ctx' s. Login e DB ctx req = (Inr (Some r), DB', ctx')
           \<and> sessions DB' = sessions DB @ [s]
           \<and> s_Token s = r_Token r \<and> s_OwnerID s = ID u"
proof -
  from accepted have sel: "\<not> rejects DB SelectUser" by simp
  have v: "validate e DB (p_Email req) (p_Password req) = Inr u"
    using found verified password by (simp add: validate_find [OF sel])
  from owns have "Namespace DB u \<noteq> None"
    by (auto simp: Namespace_def find_None_iff)
  then obtain n where n: "Namespace DB u = Some n" by auto
  show ?thesis
    unfolding Login_valid [OF v]
    using accepted n by (simp add: buildSession_def)
qed

text \<open>The login of \<open>alice\<close> with her e-mail address and password succeeds.\<close>

theorem Login_success_witness:
  "\<exists>r DB' ctx' s.
     Login example_env example_db example_ctx alice_login = (Inr (Some r), DB', ctx')
     \<and> sessions DB' = sessions example_db @ [s]
     \<and> s_Token s = r_Token r \<and> s_OwnerID s = ID alice"
proof (rule Login_success)
  show "find (\<lambda>u. byLogin (p_Email alice_login) u \<and> NormalUser u) (users example_db)
      = Some alice"
    by (simp add: byLogin_def alice_login_def example_db_def NormalUser_def example_rows)
  show "VerifiedAt alice \<noteq> None" by (simp add: alice_def)
  show "ComparePassword example_env (EncryptedPassword alice) (p_Password alice_login)"
    by (simp add: example_env_def alice_login_def)
  show "\<not> rejects example_db SelectUser \<and> \<not> rejects example_db Begin
      \<and> \<not> rejects example_db UpdateUser \<and> \<not> rejects example_db InsertSession
      \<and> \<not> rejects example_db Commit"
    by (simp add: example_db_def)
  show "\<exists>n\<in>set (namespaces example_db). n_OwnerID n = ID alice \<and> n_OwnerType n = TypeUser"
    by (simp add: example_db_def example_rows)
qed

text \<open>
  C4, as it is stated, fails: \<open>alice\<close> is normal and verified, her password is
  accepted and the store refuses nothing, but without a namespace row for her the
  login reads the path of a nil namespace and does not succeed; no session row is kept.
\<close>

theorem Login_without_namespace:
  "validate example_env (example_db\<lparr>namespaces := []\<rparr>)
      (p_Email alice_login) (p_Password alice_login) = Inr alice
   \<and> NormalUser alice \<and> Verified alice
   \<and> ComparePassword example_env (EncryptedPassword alice) (p_Password alice_login)
   \<and> \<not> rejects (example_db\<lparr>namespaces := []\<rparr>) SelectUser
   \<and> \<not> rejects (example_db\<lparr>namespaces := []\<rparr>) Begin
   \<and> \<not> rejects (example_db\<lparr>namespaces := []\<rparr>) UpdateUser
   \<and> \<not> rejects (example_db\<lparr>namespaces := []\<rparr>) InsertSession
   \<and> \<not> rejects (example_db\<lparr>namespaces := []\<rparr>) Commit
   \<and> Login example_env (example_db\<lparr>namespaces := []\<rparr>) example_ctx alice_login
       = (Inl (Panic NamespacePath), example_db\<lparr>namespaces := []\<rparr>, example_ctx)"
proof -
  have v: "validate example_env (example_db\<lparr>namespaces := []\<rparr>)
      (p_Email alice_login) (p_Password alice_login) = Inr alice"
    by (simp add: validate_def GetUserByEmail_def getUser_def listUsersByCond_def
        example_db_def example_env_def alice_login_def NormalUser_def Verified_def
        example_rows)
  have l: "Login example_env (example_db\<lparr>namespaces := []\<rparr>) example_ctx alice_login
       = (Inl (Panic NamespacePath), example_db\<lparr>namespaces := []\<rparr>, example_ctx)"
    unfolding Login_valid [OF v] by (simp add: Namespace_def example_db_def)
  from v l show ?thesis
    by (simp add: NormalUser_def Verified_def alice_def example_env_def alice_login_def
        example_db_def)
qed

subsection \<open>Cookie and expiry\<close>

text \<open>
  C6. A successful \<^verbatim>\<open>Login\<close> has made exactly one call of \<^verbatim>\<open>SetCookie\<close>: name
  \<open>auth-user-token\<close>, value the token of the result, max-age 0, path \<open>/\<close>, the host of
  the request as domain, neither secure nor http-only. The session row it has inserted
  carries that token, is created in the second the clock showed, and expires 30 days
  (of 86400 seconds) after the second the clock showed when the expiry was computed.
\<close>

theorem Login_cookie:
  assumes "Login e DB ctx req = (Inr r, DB', ctx')"
  shows "\<exists>res s. r = Some res
           \<and> cookies ctx' = cookies ctx @
               [\<lparr>c_name = ''auth-user-token'', c_value = r_Token res, c_maxAge = 0,
                 c_path = ''/'', c_domain = RequestHost ctx, c_secure = False,
                 c_httpOnly = False\<rparr>]
           \<and> sessions DB' = sessions DB @ [s]
           \<and> s_Token s = r_Token res
           \<and> s_CreatedAt s = Unix (now_created e)
           \<and> s_ExpiredAt s = Unix (now_expired e) + 30 * 86400"
proof (cases "validate e DB (p_Email req) (p_Password req)")
  case (Inl err)
  then have "Login e DB ctx req = (Inl err, DB, ctx)" by (rule Login_invalid)
  with assms show ?thesis by simp
next
  case (Inr u)
  have x: "s_ExpiredAt (buildSession e (ID u) (ClientIP ctx))
      = Unix (now_expired e) + 30 * 86400"
    by (simp add: buildSession_def Unix_TokenExpiredTime)
  have t: "s_Token (buildSession e (ID u) (ClientIP ctx)) = UUID e"
    by (simp add: buildSession_def)
  have c: "s_CreatedAt (buildSession e (ID u) (ClientIP ctx)) = Unix (now_created e)"
    by (simp add: buildSession_def)
  from assms show ?thesis
    unfolding Login_valid [OF Inr]
    using x t c by (auto simp: SetCookie_def tokenField_def split: if_splits option.splits)
qed

text \<open>
  The login of \<open>alice\<close> in second 1700 sets the one cookie and stores a session that
  expires in second 1700 + 2592000.
\<close>

theorem Login_cookie_witness:
  "fst (Login example_env example_db example_ctx alice_login)
      = Inr (Some \<lparr>r_Token = ''tok-new'', r_NamespacePath = ''alice'', r_Name = ''Alice'',
                r_Email = ''alice@example.org'', r_PublicEmail = ''alice@example.org''\<rparr>)
   \<and> cookies (snd (snd (Login example_env example_db example_ctx alice_login)))
      = [\<lparr>c_name = ''auth-user-token'', c_value = ''tok-new'', c_maxAge = 0, c_path = ''/'',
          c_domain = ''example.org'', c_secure = False, c_httpOnly = False\<rparr>]
   \<and> map s_ExpiredAt
        (sessions (fst (snd (Login example_env example_db example_ctx alice_login))))
      = [2000, 2000, 1700 + 30 * 86400]"
  using Login_cookie [OF alice_logs_in] alice_logs_in
  by (simp add: example_db_def example_rows)

section \<open>Properties of the namespace enrichment\<close>

lemma collectUsers_keys:
  "collectUsers h ps ids m = Inr (ids', m') \<Longrightarrow> set ids \<subseteq> dom m \<Longrightarrow> set ids' \<subseteq> dom m'"
proof (induction h ps ids m rule: collectUsers.induct)
  case (1 h userIDs userMap)
  then show ?case by simp
next
  case (2 h ps userIDs userMap)
  then show ?case by simp
next
  case (3 h a ps userIDs userMap)
  from "3.prems"
  have "collectUsers h ps (userIDs @ [ID (h a)]) (userMap(ID (h a) \<mapsto> a)) = Inr (ids', m')"
    by simp
  moreover from "3.prems"
  have "set (userIDs @ [ID (h a)]) \<subseteq> dom (userMap(ID (h a) \<mapsto> a))"
    by auto
  ultimately show ?case by (rule "3.IH")
qed

lemma collectUsers_panic:
  "collectUsers h ps ids m = Inl err \<Longrightarrow> err = Panic RangeUserID"
  by (induction h ps ids m rule: collectUsers.induct) auto

lemma collectUsers_total:
  "\<forall>p\<in>set ps. p \<noteq> None \<Longrightarrow> \<exists>ids' m'. collectUsers h ps ids m = Inr (ids', m')"
  by (induction h ps ids m rule: collectUsers.induct) auto

lemma fillNs_total:
  "\<forall>n\<in>set nss. n_OwnerID n \<in> dom m \<Longrightarrow> \<exists>h'. fillNs m nss h = Inr h'"
  by (induction m nss h rule: fillNs.induct) auto

text \<open>
  Without the precondition the write does reach a nil pointer: a namespace whose owner
  is not among the users is looked up in the map under a key that is not there.
\<close>

lemma fillNamespaceInUsers_foreign_owner:
  "fillNamespaceInUsers (\<lambda>ids. Some [alice_ns]) example_heap [Some 1] = Inl (Panic FillUserNs)"
  by (simp add: fillNamespaceInUsers_def example_heap_def example_rows)

text \<open>
  C10. For every list of user pointers: when every namespace that the namespace query
  returns for the collected ids is owned by one of those ids, \<^verbatim>\<open>fillNamespaceInUsers\<close>
  never writes a namespace through a nil user pointer. When moreover no pointer of the
  list is nil, the call returns, with the filled heap or with the error of the query.
\<close>

theorem fillNamespaceInUsers_no_nil_write:
  assumes "\<forall>ids m nss. collectUsers h us [] Map.empty = Inr (ids, m) \<longrightarrow>
             listNs ids = Some nss \<longrightarrow> (\<forall>n\<in>set nss. n_OwnerID n \<in> set ids)"
  shows "fillNamespaceInUsers listNs h us \<noteq> Inl (Panic FillUserNs)
       \<and> ((\<forall>p\<in>set us. p \<noteq> None) \<longrightarrow>
            fillNamespaceInUsers listNs h us = Inl SQLError
          \<or> (\<exists>h'. fillNamespaceInUsers listNs h us = Inr h'))"
proof (cases "collectUsers h us [] Map.empty")
  case (Inl err)
  then have "err = Panic RangeUserID" by (rule collectUsers_panic)
  with Inl have r: "fillNamespaceInUsers listNs h us = Inl (Panic RangeUserID)"
    by (simp add: fillNamespaceInUsers_def)
  have "\<not> (\<forall>p\<in>set us. p \<noteq> None)"
  proof
    assume "\<forall>p\<in>set us. p \<noteq> None"
    then obtain ids' m' where "collectUsers h us [] Map.empty = Inr (ids', m')"
      using collectUsers_total by blast
    with Inl show False by simp
  qed
  with r show ?thesis by simp
next
  case (Inr pr)
  obtain ids m where pr: "pr = (ids, m)" by (cases pr)
  with Inr have c: "collectUsers h us [] Map.empty = Inr (ids, m)" by simp
  then have keys: "set ids \<subseteq> dom m" by (rule collectUsers_keys) simp
  show ?thesis
  proof (cases "listNs ids")
    case None
    with c show ?thesis by (simp add: fillNamespaceInUsers_def)
  next
    case (Some nss)
    with assms c have "\<forall>n\<in>set nss. n_OwnerID n \<in> set ids" by blast
    with keys have "\<forall>n\<in>set nss. n_OwnerID n \<in> dom m" by blast
    then obtain h' where "fillNs m nss h = Inr h'" using fillNs_total by blast
    with c Some show ?thesis by (simp add: fillNamespaceInUsers_def)
  qed
qed

text \<open>
  With \<open>alice\<close> and \<open>bob\<close> in the list, the one namespace returned is written into
  the row of \<open>alice\<close>, and \<open>bob\<close> keeps none.
\<close>

theorem fillNamespaceInUsers_no_nil_write_witness:
  "collectUsers example_heap [Some 0, Some 1] [] Map.empty
       = Inr ([1, 2], [1 \<mapsto> 0, 2 \<mapsto> 1])
   \<and> example_listNs [1, 2] = Some [alice_ns]
   \<and> fillNamespaceInUsers example_listNs example_heap [Some 0, Some 1]
       \<noteq> Inl (Panic FillUserNs)
   \<and> (\<exists>h'. fillNamespaceInUsers example_listNs example_heap [Some 0, Some 1] = Inr h'
          \<and> ns (h' 0) = Some alice_ns \<and> ns (h' 1) = None)"
proof -
  have hyp: "\<forall>ids m nss.
      collectUsers example_heap [Some 0, Some 1] [] Map.empty = Inr (ids, m) \<longrightarrow>
        example_listNs ids = Some nss \<longrightarrow> (\<forall>n\<in>set nss. n_OwnerID n \<in> set ids)"
    by (auto simp: example_listNs_def)
  have ev: "\<exists>h'. fillNamespaceInUsers example_listNs example_heap [Some 0, Some 1] = Inr h'
          \<and> ns (h' 0) = Some alice_ns \<and> ns (h' 1) = None"
    by (simp add: fillNamespaceInUsers_def example_listNs_def example_heap_def example_rows)
  have c: "collectUsers example_heap [Some 0, Some 1] [] Map.empty
       = Inr ([1, 2], [1 \<mapsto> 0, 2 \<mapsto> 1])"
    by (simp add: example_heap_def example_rows)
  have l: "example_listNs [1, 2] = Some [alice_ns]"
    by (simp add: example_listNs_def alice_ns_def)
  from c l fillNamespaceInUsers_no_nil_write [OF hyp] ev show ?thesis by blast
qed

end
